theory Spec2Isabelle
  imports
    Main
    "HOL-Library.AList"
    "HOL-Library.FSet"
    "HOL-Library.Char_ord"
    "HOL-Library.List_Lexorder"
    "HOL-Library.Product_Lexorder"
begin

section \<open>Weighted graph and Dijkstra's algorithm (task\_3.py)\<close>

subsection \<open>Data model\<close>

text \<open>
  Vertices are Python strings. They are compared by the heap as the second component of
  the tuples \<^verbatim>\<open>(distance, vertex)\<close>; the order is the lexicographic order on the
  characters, which is what \<open>Char_ord\<close> and \<open>List_Lexorder\<close> give to \<^typ>\<open>string\<close>,
  and \<open>Product_Lexorder\<close> gives the tuple order.
\<close>

type_synonym vertex = string

text \<open>
  An inner adjacency dictionary \<^verbatim>\<open>edges[u]\<close> is iterated by \<^verbatim>\<open>.items()\<close>, so it is
  an association list in insertion order: \<^const>\<open>AList.update\<close> overwrites the value of a
  key in place and appends a new key at the end, as a Python dict does. The outer
  \<^verbatim>\<open>defaultdict(dict)\<close> is only ever indexed, so it is a map; a key that is absent from
  it is \<open>None\<close>. The vertex set \<^verbatim>\<open>nodes\<close> is a finite set.
\<close>

type_synonym adjacency = "(vertex \<times> int) list"

record graph =
  edges :: "vertex \<rightharpoonup> adjacency"
  nodes :: "vertex fset"

text \<open>\<^verbatim>\<open>Graph()\<close>: an empty defaultdict and an empty set.\<close>

definition Graph :: graph where
  "Graph = \<lparr>edges = Map.empty, nodes = {||}\<rparr>"

text \<open>\<^verbatim>\<open>self.nodes.add(node)\<close>\<close>

definition add_node :: "graph \<Rightarrow> vertex \<Rightarrow> graph" where
  "add_node g node = g\<lparr>nodes := finsert node (nodes g)\<rparr>"

text \<open>
  Indexing the defaultdict, \<^verbatim>\<open>self.edges[k]\<close>: a missing key is inserted with an empty
  dictionary, which is returned. The access returns the inner dictionary and the
  graph after the access.
\<close>

definition edges_getitem :: "graph \<Rightarrow> vertex \<Rightarrow> adjacency \<times> graph" where
  "edges_getitem g k =
     (case edges g k of
        None \<Rightarrow> ([], g\<lparr>edges := (edges g)(k \<mapsto> [])\<rparr>)
      | Some d \<Rightarrow> (d, g))"

text \<open>\<^verbatim>\<open>self.edges[u][v] = weight\<close>: index the defaultdict, then store into the inner dictionary.\<close>

definition edges_setitem :: "graph \<Rightarrow> vertex \<Rightarrow> vertex \<Rightarrow> int \<Rightarrow> graph" where
  "edges_setitem g u v weight =
     (let (d, g') = edges_getitem g u
      in g'\<lparr>edges := (edges g')(u \<mapsto> AList.update v weight d)\<rparr>)"

text \<open>
  \<^verbatim>\<open>
  def add_edge(self, u, v, weight):
      self.edges[u][v] = weight
      self.edges[v][u] = weight
  \<close>
  There is no check of the weight and no access to \<^verbatim>\<open>self.nodes\<close>; the method cannot raise.
\<close>

definition add_edge :: "graph \<Rightarrow> vertex \<Rightarrow> vertex \<Rightarrow> int \<Rightarrow> graph" where
  "add_edge g u v weight = edges_setitem (edges_setitem g u v weight) v u weight"

text \<open>\<^verbatim>\<open>return self.edges[node]\<close>: the read goes through the defaultdict.\<close>

definition get_neighbors :: "graph \<Rightarrow> vertex \<Rightarrow> adjacency \<times> graph" where
  "get_neighbors g node = edges_getitem g node"

subsection \<open>Distances\<close>

text \<open>
  A recorded distance is \<^verbatim>\<open>float('infinity')\<close> or an integer (0 or a sum of edge weights,
  which are \<^verbatim>\<open>int\<close>).
\<close>

datatype distance = Infinity | Fin int

text \<open>\<^verbatim>\<open>a < b\<close> and \<^verbatim>\<open>a <= b\<close> on such values.\<close>

fun dist_less :: "distance \<Rightarrow> distance \<Rightarrow> bool" where
  "dist_less (Fin a) (Fin b) = (a < b)"
| "dist_less (Fin a) Infinity = True"
| "dist_less Infinity _ = False"

fun dist_le :: "distance \<Rightarrow> distance \<Rightarrow> bool" where
  "dist_le (Fin a) (Fin b) = (a \<le> b)"
| "dist_le _ Infinity = True"
| "dist_le Infinity (Fin b) = False"

text \<open>
  The distance table is a Python dict: an association list, read with \<^const>\<open>map_of\<close> and
  written with \<^const>\<open>AList.update\<close>. Looking up a missing key raises \<^verbatim>\<open>KeyError\<close>.
\<close>

type_synonym table = "(vertex \<times> distance) list"

datatype error = KeyError

subsection \<open>The priority queue\<close>

text \<open>
  \<^verbatim>\<open>heapq\<close> is the standard library's binary heap on a list. Its contract is what the
  algorithm observes: \<^verbatim>\<open>heappush\<close> adds an item, \<^verbatim>\<open>heappop\<close> removes and returns the
  least item under the tuple order. The order on \<^typ>\<open>int \<times> vertex\<close> is total, so the
  least item is determined as a value by the items in the heap, whatever their layout.
\<close>

type_synonym heap = "(int \<times> vertex) list"

definition heappush :: "heap \<Rightarrow> int \<times> vertex \<Rightarrow> heap" where
  "heappush h x = h @ [x]"

definition heappop :: "heap \<Rightarrow> (int \<times> vertex) \<times> heap" where
  "heappop h = (let m = Min (set h) in (m, remove1 m h))"

subsection \<open>The algorithm\<close>

text \<open>
  The inner \<^verbatim>\<open>for\<close> loop over \<^verbatim>\<open>graph.get_neighbors(current).items()\<close>:
  \<^verbatim>\<open>
  if neighbor not in visited:
      distance = current_distance + weight
      if distance < distances[neighbor]:
          distances[neighbor] = distance
          heapq.heappush(heap, (distance, neighbor))
  \<close>
  \<^verbatim>\<open>distances[neighbor]\<close> raises \<^verbatim>\<open>KeyError\<close> for a neighbor that is not a key of the table.
\<close>

fun relax :: "int \<Rightarrow> vertex set \<Rightarrow> adjacency \<Rightarrow> table \<Rightarrow> heap \<Rightarrow> error + table \<times> heap" where
  "relax current_distance visited [] distances h = Inr (distances, h)"
| "relax current_distance visited ((neighbor, weight) # items) distances h =
     (if neighbor \<notin> visited then
        (let dist = current_distance + weight in
         case map_of distances neighbor of
           None \<Rightarrow> Inl KeyError
         | Some old \<Rightarrow>
             if dist_less (Fin dist) old
             then relax current_distance visited items
                    (AList.update neighbor (Fin dist) distances) (heappush h (dist, neighbor))
             else relax current_distance visited items distances h)
      else relax current_distance visited items distances h)"

text \<open>The local variables of \<^verbatim>\<open>dijkstra\<close> that the \<^verbatim>\<open>while\<close> loop changes.\<close>

record locals =
  distances :: table
  heap :: heap
  visited :: "vertex set"

text \<open>
  One iteration of \<^verbatim>\<open>while heap:\<close>, entered with a non-empty heap. The graph is an
  object that \<^verbatim>\<open>get_neighbors\<close> may change, so it is returned also when the
  iteration raises.
\<close>

definition step :: "graph \<Rightarrow> locals \<Rightarrow> graph \<times> (error + locals)" where
  "step g s =
     (let ((current_distance, current), h) = heappop (heap s) in
      if current \<in> visited s then (g, Inr (s\<lparr>heap := h\<rparr>))
      else
        let vis = insert current (visited s);
            (items, g') = get_neighbors g current
        in case relax current_distance vis items (distances s) h of
             Inl e \<Rightarrow> (g', Inl e)
           | Inr (ds, h') \<Rightarrow> (g', Inr \<lparr>distances = ds, heap = h', visited = vis\<rparr>))"

text \<open>The vertices that the loop can still visit: keys of the table and vertices in the heap.\<close>

definition pending :: "locals \<Rightarrow> vertex set" where
  "pending s = (fst ` set (distances s) \<union> snd ` set (heap s)) - visited s"

function loop :: "graph \<Rightarrow> locals \<Rightarrow> graph \<times> (error + table)" where
  "loop g s =
     (if heap s = [] then (g, Inr (distances s))
      else case step g s of
             (g', Inl e) \<Rightarrow> (g', Inl e)
           | (g', Inr s') \<Rightarrow> loop g' s')"
  by pat_completeness auto

text \<open>
  Termination of the \<^verbatim>\<open>while\<close> loop: an iteration that visits a vertex removes it
  from the pending vertices, and relaxation only pushes keys of the table; an iteration
  that discards a stale entry shortens the heap.
\<close>

lemma relax_keys:
  "relax cd vis items ds h = Inr (ds', h') \<Longrightarrow>
     fst ` set ds' = fst ` set ds \<and> snd ` set h' \<subseteq> snd ` set h \<union> fst ` set ds"
proof (induction items arbitrary: ds h)
  case Nil
  then show ?case by auto
next
  case (Cons a items)
  obtain nb w where a: "a = (nb, w)" by (cases a)
  show ?case
  proof (cases "nb \<notin> vis \<and> (\<exists>old. map_of ds nb = Some old \<and> dist_less (Fin (cd + w)) old)")
    case True
    then obtain old where o: "map_of ds nb = Some old" "dist_less (Fin (cd + w)) old" "nb \<notin> vis" by blast
    then have r: "relax cd vis items (AList.update nb (Fin (cd + w)) ds) (heappush h (cd + w, nb)) = Inr (ds', h')"
      using Cons.prems a by (simp add: Let_def)
    have k: "nb \<in> fst ` set ds" using o(1) by (force dest: map_of_SomeD)
    from Cons.IH[OF r] k show ?thesis
      by (auto simp: dom_update heappush_def)
  next
    case False
    then have r: "relax cd vis items ds h = Inr (ds', h')"
      using Cons.prems a by (auto simp: Let_def split: if_splits option.splits)
    from Cons.IH[OF r] show ?thesis .
  qed
qed

lemma step_decreases:
  assumes "heap s \<noteq> []" "step g s = (g', Inr s')"
  shows "pending s' \<subset> pending s \<or> (pending s' \<subseteq> pending s \<and> length (heap s') < length (heap s))"
proof -
  obtain cd cur where m: "Min (set (heap s)) = (cd, cur)" by (cases "Min (set (heap s))")
  have mem: "(cd, cur) \<in> set (heap s)" using Min_in[of "set (heap s)"] assms(1) m by simp
  show ?thesis
  proof (cases "cur \<in> visited s")
    case True
    then have "s' = s\<lparr>heap := remove1 (cd, cur) (heap s)\<rparr>"
      using assms(2) m by (simp add: step_def heappop_def Let_def)
    moreover have "length (remove1 (cd, cur) (heap s)) < length (heap s)"
      using mem assms(1) by (simp add: length_remove1)
    moreover have "set (remove1 (cd, cur) (heap s)) \<subseteq> set (heap s)" by (rule set_remove1_subset)
    ultimately show ?thesis by (auto simp: pending_def)
  next
    case False
    obtain items g2 where gn: "get_neighbors g cur = (items, g2)" by (cases "get_neighbors g cur")
    from assms(2) m False gn obtain ds h' where
      r: "relax cd (insert cur (visited s)) items (distances s) (remove1 (cd, cur) (heap s)) = Inr (ds, h')"
      and s': "s' = \<lparr>distances = ds, heap = h', visited = insert cur (visited s)\<rparr>"
      by (auto simp: step_def heappop_def Let_def split: sum.splits)
    from relax_keys[OF r] have
      k: "fst ` set ds = fst ` set (distances s)"
      and hh: "snd ` set h' \<subseteq> snd ` set (remove1 (cd, cur) (heap s)) \<union> fst ` set (distances s)" by auto
    have "snd ` set (remove1 (cd, cur) (heap s)) \<subseteq> snd ` set (heap s)"
      using set_remove1_subset[of "(cd, cur)" "heap s"] by blast
    with hh have "snd ` set h' \<subseteq> snd ` set (heap s) \<union> fst ` set (distances s)" by blast
    with k have sub: "pending s' \<subseteq> pending s" unfolding pending_def s' by auto
    have "cur \<in> pending s" using mem False by (force simp: pending_def)
    moreover have "cur \<notin> pending s'" by (simp add: pending_def s')
    ultimately show ?thesis using sub by blast
  qed
qed

lemma finite_pending: "finite (pending s)" by (simp add: pending_def)

termination loop
  apply (relation "inv_image (less_than <*lex*> less_than) (\<lambda>(g, s). (card (pending s), length (heap s)))")
   apply (intro wf_inv_image wf_lex_prod wf_less_than)
  subgoal for g s g' y s'
    using step_decreases[of s g g' s']
      psubset_card_mono[OF finite_pending, of "pending s'" s]
      card_mono[OF finite_pending, of "pending s'" s]
    by auto
  done

text \<open>
  \<^verbatim>\<open>
  distances = {node: float('infinity') for node in graph.nodes}
  distances[start] = 0
  heap = [(0, start)]
  visited = set()
  \<close>
  The comprehension runs over the set in some order; the sorted order stands for it.
\<close>

definition init :: "graph \<Rightarrow> vertex \<Rightarrow> locals" where
  "init g start =
     \<lparr>distances = AList.update start (Fin 0)
                    (map (\<lambda>node. (node, Infinity)) (sorted_list_of_fset (nodes g))),
      heap = [(0, start)],
      visited = {}\<rparr>"

text \<open>\<^verbatim>\<open>dijkstra(graph, start)\<close>: the graph after the call, and the table or the error raised.\<close>

definition dijkstra :: "graph \<Rightarrow> vertex \<Rightarrow> graph \<times> (error + table)" where
  "dijkstra g start = loop g (init g start)"

text \<open>The graph that \<^verbatim>\<open>main\<close> builds: five \<^verbatim>\<open>add_node\<close> calls, then seven \<^verbatim>\<open>add_edge\<close> calls.\<close>

definition main_graph :: graph where
  "main_graph =
     foldl (\<lambda>g (u, v, w). add_edge g u v w)
       (foldl add_node Graph [''A'', ''B'', ''C'', ''D'', ''E''])
       [(''A'', ''B'', 4), (''A'', ''C'', 2), (''B'', ''C'', 1), (''B'', ''D'', 5),
        (''C'', ''D'', 8), (''C'', ''E'', 10), (''D'', ''E'', 2)]"

subsection \<open>Observations on a graph\<close>

text \<open>
  What \<^verbatim>\<open>get_neighbors(v)\<close> returns (a missing key reads as the empty dictionary), the
  weight stored as \<^verbatim>\<open>edges[u][v]\<close> if there is one, and the symmetry of the stored weights.
  \<open>grows g g'\<close> relates a graph to one that differs from it only by keys of the
  defaultdict that were created with an empty dictionary by a read.
\<close>

definition neighbors_of :: "graph \<Rightarrow> vertex \<Rightarrow> adjacency" where
  "neighbors_of g v = (case edges g v of None \<Rightarrow> [] | Some d \<Rightarrow> d)"

definition weight_of :: "graph \<Rightarrow> vertex \<Rightarrow> vertex \<Rightarrow> int option" where
  "weight_of g u v = (case edges g u of None \<Rightarrow> None | Some d \<Rightarrow> map_of d v)"

definition symmetric :: "graph \<Rightarrow> bool" where
  "symmetric g \<longleftrightarrow> (\<forall>u v w. weight_of g u v = Some w \<longrightarrow> weight_of g v u = Some w)"

definition grows :: "graph \<Rightarrow> graph \<Rightarrow> bool" where
  "grows g g' \<longleftrightarrow>
     nodes g' = nodes g \<and>
     (\<forall>v. edges g' v = edges g v \<or> (edges g v = None \<and> edges g' v = Some []))"

section \<open>Graph operations\<close>

lemma weight_of_neighbors: "weight_of g u v = map_of (neighbors_of g u) v"
  by (simp add: weight_of_def neighbors_of_def split: option.splits)

lemma edges_getitem_fst: "fst (edges_getitem g k) = neighbors_of g k"
  by (simp add: edges_getitem_def neighbors_of_def split: option.splits)

lemma edges_getitem_grows: "grows g (snd (edges_getitem g k))"
  by (simp add: edges_getitem_def grows_def split: option.splits)

lemma grows_refl: "grows g g"
  by (simp add: grows_def)

lemma grows_trans: "grows g g' \<Longrightarrow> grows g' g'' \<Longrightarrow> grows g g''"
  unfolding grows_def by (metis option.distinct(1))

lemma grows_neighbors: "grows g g' \<Longrightarrow> neighbors_of g' v = neighbors_of g v"
  unfolding grows_def neighbors_of_def by (metis option.simps(4,5))

lemma edges_setitem_edges:
  "edges (edges_setitem g u v w) = (edges g)(u \<mapsto> AList.update v w (neighbors_of g u))"
  by (auto simp: edges_setitem_def edges_getitem_def neighbors_of_def split: option.splits)

lemma edges_setitem_nodes: "nodes (edges_setitem g u v w) = nodes g"
  by (auto simp: edges_setitem_def edges_getitem_def split: option.splits)

lemma weight_of_setitem:
  "weight_of (edges_setitem g u v w) a b = (if a = u \<and> b = v then Some w else weight_of g a b)"
  by (simp add: weight_of_neighbors neighbors_of_def edges_setitem_edges update_conv')

lemma weight_of_add_edge:
  "weight_of (add_edge g u v w) a b =
     (if (a = u \<and> b = v) \<or> (a = v \<and> b = u) then Some w else weight_of g a b)"
proof -
  have "weight_of (add_edge g u v w) a b =
          (if a = v \<and> b = u then Some w else weight_of (edges_setitem g u v w) a b)"
    unfolding add_edge_def by (rule weight_of_setitem)
  also have "weight_of (edges_setitem g u v w) a b =
          (if a = u \<and> b = v then Some w else weight_of g a b)"
    by (rule weight_of_setitem)
  finally show ?thesis
    by (cases "a = u"; cases "b = v"; cases "a = v"; cases "b = u";
        simp only: if_True if_False simp_thms)
qed

lemma weight_of_add_edge_fwd: "weight_of (add_edge g u v w) u v = Some w"
  by (subst weight_of_add_edge) (rule if_P, blast)

lemma weight_of_add_edge_bwd: "weight_of (add_edge g u v w) v u = Some w"
  by (subst weight_of_add_edge) (rule if_P, blast)

lemma weight_of_add_edge_other:
  "\<not> (a = u \<and> b = v) \<Longrightarrow> \<not> (a = v \<and> b = u) \<Longrightarrow>
     weight_of (add_edge g u v w) a b = weight_of g a b"
  by (subst weight_of_add_edge) (rule if_not_P, blast)

lemma symmetric_add_edge:
  assumes "symmetric g"
  shows "symmetric (add_edge g u v w)"
  unfolding symmetric_def
proof (intro allI impI)
  fix a b x
  assume e: "weight_of (add_edge g u v w) a b = Some x"
  consider (fwd) "a = u" "b = v" | (bwd) "a = v" "b = u"
    | (other) "\<not> (a = u \<and> b = v)" "\<not> (a = v \<and> b = u)" by blast
  then show "weight_of (add_edge g u v w) b a = Some x"
  proof cases
    case fwd
    with e have "x = w" by (simp only: weight_of_add_edge_fwd option.inject)
    with fwd show ?thesis by (simp only: weight_of_add_edge_bwd)
  next
    case bwd
    with e have "x = w" by (simp only: weight_of_add_edge_bwd option.inject)
    with bwd show ?thesis by (simp only: weight_of_add_edge_fwd)
  next
    case other
    then have o': "\<not> (b = u \<and> a = v)" "\<not> (b = v \<and> a = u)" by blast+
    from e have "weight_of g a b = Some x" unfolding weight_of_add_edge_other[OF other] .
    with assms have "weight_of g b a = Some x" unfolding symmetric_def by blast
    then show ?thesis unfolding weight_of_add_edge_other[OF o'] .
  qed
qed

lemma nodes_add_edge: "nodes (add_edge g u v w) = nodes g"
  by (simp add: add_edge_def edges_setitem_nodes)

lemma dom_edges_add_edge: "dom (edges (add_edge g u v w)) = insert u (insert v (dom (edges g)))"
  by (auto simp: add_edge_def edges_setitem_edges)

section \<open>The loop and the graph\<close>

lemma step_grows: "grows g (fst (step g s))"
proof -
  obtain cd cur h where p: "heappop (heap s) = ((cd, cur), h)"
    by (metis prod.exhaust)
  show ?thesis
    using edges_getitem_grows[of g cur]
    by (cases "edges_getitem g cur")
       (auto simp: step_def p get_neighbors_def grows_refl Let_def split: sum.splits)
qed

declare loop.simps [simp del]

lemma loop_grows: "grows g (fst (loop g s))"
proof (induction g s rule: loop.induct)
  case (1 g s)
  show ?case
  proof (cases "heap s = []")
    case True
    then show ?thesis by (simp add: loop.simps grows_refl)
  next
    case False
    obtain g' r where st: "step g s = (g', r)" by (cases "step g s")
    have g': "grows g g'" using step_grows[of g s] st by simp
    show ?thesis
    proof (cases r)
      case (Inl e)
      then show ?thesis using False st g' by (simp add: loop.simps)
    next
      case (Inr s')
      have "grows g' (fst (loop g' s'))"
        using "1.IH"[OF False, of g' r s'] st Inr by simp
      moreover have "loop g s = loop g' s'" using False st Inr by (simp add: loop.simps)
      ultimately show ?thesis using g' grows_trans by simp
    qed
  qed
qed

lemma step_cong:
  assumes "\<forall>v. neighbors_of g1 v = neighbors_of g2 v"
  shows "snd (step g1 s) = snd (step g2 s)"
proof -
  obtain cd cur h where p: "heappop (heap s) = ((cd, cur), h)"
    by (metis prod.exhaust)
  have "fst (get_neighbors g1 cur) = fst (get_neighbors g2 cur)"
    using assms by (simp add: get_neighbors_def edges_getitem_fst)
  then show ?thesis
    by (cases "get_neighbors g1 cur"; cases "get_neighbors g2 cur")
       (auto simp: step_def p Let_def split: sum.splits)
qed

lemma loop_cong:
  "\<forall>v. neighbors_of g1 v = neighbors_of g2 v \<Longrightarrow> snd (loop g1 s) = snd (loop g2 s)"
proof (induction g1 s arbitrary: g2 rule: loop.induct)
  case (1 g s)
  show ?case
  proof (cases "heap s = []")
    case True
    then show ?thesis by (simp add: loop.simps)
  next
    case False
    obtain g' r where st: "step g s = (g', r)" by (cases "step g s")
    obtain g2' r2 where st2: "step g2 s = (g2', r2)" by (cases "step g2 s")
    have rr: "r2 = r" using step_cong[OF "1.prems", of s] st st2 by simp
    have n': "\<forall>v. neighbors_of g' v = neighbors_of g2' v"
      using step_grows[of g s] step_grows[of g2 s] st st2 "1.prems"
      by (simp add: grows_neighbors)
    show ?thesis
    proof (cases r)
      case (Inl e)
      then show ?thesis using False st st2 rr by (simp add: loop.simps)
    next
      case (Inr s')
      have "snd (loop g' s') = snd (loop g2' s')"
        using "1.IH"[OF False, of g' r s' g2'] st Inr n' by simp
      moreover have "loop g s = loop g' s'" using False st Inr by (simp add: loop.simps)
      moreover have "loop g2 s = loop g2' s'" using False st2 rr Inr by (simp add: loop.simps)
      ultimately show ?thesis by simp
    qed
  qed
qed

lemma sorted_list_of_fset_empty: "sorted_list_of_fset {||} = ([] :: vertex list)"
  by (simp add: sorted_list_of_fset.rep_eq)

lemma sorted_list_of_fset_single: "sorted_list_of_fset {|x|} = ([x] :: vertex list)"
  by (simp add: sorted_list_of_fset.rep_eq)

lemma grows_nodes: "grows g g' \<Longrightarrow> nodes g' = nodes g"
  unfolding grows_def by blast

lemma weight_of_add_node: "weight_of (add_node g n) u v = weight_of g u v"
  by (simp add: weight_of_def add_node_def)

lemma dijkstra_grows: "grows g (fst (dijkstra g start))"
  by (simp add: dijkstra_def loop_grows)

lemma symmetric_grows:
  assumes "grows g g'" "symmetric g"
  shows "symmetric g'"
proof -
  have eq: "weight_of g' = weight_of g"
    by (intro ext) (simp only: weight_of_neighbors grows_neighbors[OF assms(1)])
  show ?thesis using assms(2) unfolding symmetric_def eq .
qed

section \<open>The reference scenario\<close>

lemma main_graph_run:
  "snd (dijkstra main_graph ''A'') =
     Inr [(''A'', Fin 0), (''B'', Fin 3), (''C'', Fin 2), (''D'', Fin 8), (''E'', Fin 10)]"
  by code_simp

text \<open>
  C9: on the graph of \<^verbatim>\<open>main\<close> (vertices A..E, edges (A,B,4) (A,C,2) (B,C,1) (B,D,5)
  (C,D,8) (C,E,10) (D,E,2)) the query from A returns a table, and the table maps A to 0,
  B to 3, C to 2, D to 8 and E to 10.
\<close>

theorem main_scenario_distances:
  "\<exists>t. snd (dijkstra main_graph ''A'') = Inr t
     \<and> map_of t ''A'' = Some (Fin 0) \<and> map_of t ''B'' = Some (Fin 3)
     \<and> map_of t ''C'' = Some (Fin 2) \<and> map_of t ''D'' = Some (Fin 8)
     \<and> map_of t ''E'' = Some (Fin 10)"
  unfolding main_graph_run by simp

section \<open>Claims about the graph operations\<close>

text \<open>
  C3 (as stated: a negative weight is rejected with an InvalidWeight error and the
  adjacency data stays unchanged). \<^verbatim>\<open>add_edge\<close> has no check: on the empty graph,
  \<^verbatim>\<open>add_edge('A', 'B', -1)\<close> changes the adjacency data.
\<close>

theorem add_edge_negative_counterexample:
  "edges (add_edge Graph ''A'' ''B'' (- 1)) \<noteq> edges Graph"
proof
  assume "edges (add_edge Graph ''A'' ''B'' (- 1)) = edges Graph"
  then have "edges (add_edge Graph ''A'' ''B'' (- 1)) ''A'' = edges Graph ''A''" by simp
  then show False by (simp add: add_edge_def edges_setitem_edges Graph_def)
qed

text \<open>
  C3 (amended): for every pair of vertices and every negative weight \<open>w\<close>,
  \<^verbatim>\<open>add_edge(u, v, w)\<close> raises nothing and stores \<open>w\<close> as both \<^verbatim>\<open>edges[u][v]\<close> and
  \<^verbatim>\<open>edges[v][u]\<close>.
\<close>

theorem add_edge_stores_negative:
  "w < 0 \<Longrightarrow>
     weight_of (add_edge g u v w) u v = Some w \<and> weight_of (add_edge g u v w) v u = Some w"
  by (intro conjI weight_of_add_edge_fwd weight_of_add_edge_bwd)

theorem add_edge_stores_negative_witness:
  "(- 1 :: int) < 0 \<and> weight_of (add_edge Graph ''A'' ''B'' (- 1)) ''A'' ''B'' = Some (- 1)
     \<and> weight_of (add_edge Graph ''A'' ''B'' (- 1)) ''B'' ''A'' = Some (- 1)"
  using add_edge_stores_negative [of "- 1" Graph "''A''" "''B''"] by simp

text \<open>
  C4 (as stated: after \<^verbatim>\<open>add_edge(u, v, w)\<close> both endpoints are members of the vertex set).
  \<^verbatim>\<open>add_edge\<close> never touches \<^verbatim>\<open>self.nodes\<close>: after \<^verbatim>\<open>add_edge('A', 'B', 4)\<close> on the
  empty graph, A is not in \<^verbatim>\<open>nodes\<close>.
\<close>

theorem add_edge_registers_counterexample:
  "''A'' |\<notin>| nodes (add_edge Graph ''A'' ''B'' 4)"
  by (simp add: nodes_add_edge Graph_def)

text \<open>
  C4 (amended): after \<^verbatim>\<open>add_edge(u, v, w)\<close> both \<open>u\<close> and \<open>v\<close> are keys of the
  adjacency mapping \<^verbatim>\<open>edges\<close> (created by the defaultdict if absent), and the vertex set
  \<^verbatim>\<open>nodes\<close> is unchanged.
\<close>

theorem add_edge_keys:
  "u \<in> dom (edges (add_edge g u v w)) \<and> v \<in> dom (edges (add_edge g u v w))
     \<and> nodes (add_edge g u v w) = nodes g"
  by (simp add: dom_edges_add_edge nodes_add_edge)

text \<open>
  C6: symmetry of the stored weights holds in the empty graph and is preserved by
  \<^verbatim>\<open>add_node\<close>, \<^verbatim>\<open>add_edge\<close>, \<^verbatim>\<open>get_neighbors\<close> and \<^verbatim>\<open>dijkstra\<close>; and
  \<^verbatim>\<open>add_edge(u, v, w)\<close> establishes \<^verbatim>\<open>edges[u][v] = w\<close> and \<^verbatim>\<open>edges[v][u] = w\<close>.
\<close>

theorem symmetry_invariant:
  "symmetric Graph \<and>
   (symmetric g \<longrightarrow>
      symmetric (add_node g n) \<and> symmetric (add_edge g u v w)
      \<and> symmetric (snd (get_neighbors g n)) \<and> symmetric (fst (dijkstra g start)))
   \<and> weight_of (add_edge g u v w) u v = Some w \<and> weight_of (add_edge g u v w) v u = Some w"
proof -
  have "symmetric Graph" by (simp add: symmetric_def weight_of_def Graph_def)
  moreover have "symmetric (add_node g n)" if "symmetric g"
    using that unfolding symmetric_def weight_of_add_node .
  moreover have "symmetric (add_edge g u v w)" if "symmetric g"
    using that by (rule symmetric_add_edge)
  moreover have "symmetric (snd (get_neighbors g n))" if "symmetric g"
    unfolding get_neighbors_def using that by (rule symmetric_grows[OF edges_getitem_grows])
  moreover have "symmetric (fst (dijkstra g start))" if "symmetric g"
    using that by (rule symmetric_grows[OF dijkstra_grows])
  ultimately show ?thesis
    using weight_of_add_edge_fwd[of g u v w] weight_of_add_edge_bwd[of g u v w] by blast
qed

theorem symmetry_invariant_witness:
  "symmetric Graph
   \<and> symmetric (add_node Graph ''C'') \<and> symmetric (add_edge Graph ''A'' ''B'' 4)
   \<and> symmetric (snd (get_neighbors Graph ''C'')) \<and> symmetric (fst (dijkstra Graph ''A''))
   \<and> weight_of (add_edge Graph ''A'' ''B'' 4) ''A'' ''B'' = Some 4
   \<and> weight_of (add_edge Graph ''A'' ''B'' 4) ''B'' ''A'' = Some 4"
  using symmetry_invariant [of Graph "''C''" "''A''" "''B''" 4 "''A''"] by blast

section \<open>Claims about the query and the graph\<close>

text \<open>
  C5 (as stated: the query leaves the graph, including the set of keys of its adjacency
  data, unchanged). \<^verbatim>\<open>get_neighbors\<close> indexes a defaultdict, which inserts a missing key:
  on the graph with the single vertex A and no edge, the query from A leaves the key A
  in \<^verbatim>\<open>edges\<close>.
\<close>

theorem dijkstra_mutates_counterexample:
  "fst (dijkstra (add_node Graph ''A'') ''A'') \<noteq> add_node Graph ''A''"
proof
  assume "fst (dijkstra (add_node Graph ''A'') ''A'') = add_node Graph ''A''"
  then have "edges (fst (dijkstra (add_node Graph ''A'') ''A'')) ''A'' = edges (add_node Graph ''A'') ''A''"
    by simp
  moreover have "edges (fst (dijkstra (add_node Graph ''A'') ''A'')) ''A'' = Some []"
    by (simp add: dijkstra_def init_def Graph_def add_node_def loop.simps step_def heappop_def
        get_neighbors_def edges_getitem_def sorted_list_of_fset_single)
  moreover have "edges (add_node Graph ''A'') ''A'' = None"
    by (simp add: add_node_def Graph_def)
  ultimately show False by simp
qed

text \<open>
  C5 (amended): the query leaves the vertex set unchanged and leaves unchanged what
  \<^verbatim>\<open>get_neighbors\<close> returns for every vertex; a key of the adjacency data keeps its
  dictionary, and the only new keys are keys that hold an empty dictionary.
\<close>

theorem dijkstra_frame:
  "nodes (fst (dijkstra g start)) = nodes g
   \<and> (\<forall>v. fst (get_neighbors (fst (dijkstra g start)) v) = fst (get_neighbors g v))
   \<and> (\<forall>v. edges (fst (dijkstra g start)) v = edges g v
          \<or> (edges g v = None \<and> edges (fst (dijkstra g start)) v = Some []))"
proof -
  have gr: "grows g (fst (dijkstra g start))" by (rule dijkstra_grows)
  have "\<forall>v. fst (get_neighbors (fst (dijkstra g start)) v) = fst (get_neighbors g v)"
    unfolding get_neighbors_def edges_getitem_fst using grows_neighbors[OF gr] by blast
  with gr show ?thesis unfolding grows_def by blast
qed

text \<open>
  C8: a second query with the same start vertex, on the graph as the first query left
  it, returns what the first query returned (the same table, or the same error).
\<close>

theorem dijkstra_repeatable:
  "snd (dijkstra (fst (dijkstra g start)) start) = snd (dijkstra g start)"
proof -
  let ?g' = "fst (dijkstra g start)"
  have gr: "grows g ?g'" by (rule dijkstra_grows)
  have "init ?g' start = init g start" unfolding init_def grows_nodes[OF gr] ..
  moreover have "\<forall>v. neighbors_of ?g' v = neighbors_of g v"
    using grows_neighbors[OF gr] by blast
  ultimately show ?thesis using loop_cong[of ?g' g "init g start"] by (simp add: dijkstra_def)
qed

end
